theory Spec2Isabelle
  imports Complex_Main
begin

section \<open>Python values shared by the controllers\<close>

text \<open>
  The exceptions the modelled methods can raise. \<open>AssertionError\<close> carries the action
  value that the assertion of the discrete robot prints in its message.
\<close>

datatype py_error =
    IndexError
  | ValueError
  | AssertionError int
  | TypeError
  | UnicodeDecodeError
  | AttributeError

text \<open>
  A Python \<open>float\<close>. A finite double is represented by the real number it denotes;
  the three non-finite doubles are values of their own. Position sensors of the simulator
  report \<open>nan\<close> before their first sample, so a robot frame can carry the text \<open>nan\<close>.
\<close>

datatype pyfloat = Finite real | PosInf | NegInf | NaN

subsection \<open>Text: \<open>str.split\<close> and \<open>str.join\<close> with the comma\<close>

text \<open>
  \<open>s.split(sep)\<close> for a one-character separator: the pieces between the separators,
  one more piece than there are separators, so never an empty list
  (\<open>"".split(",")\<close> is \<open>[""]\<close>).
\<close>

fun split_sep :: "char \<Rightarrow> string \<Rightarrow> string list" where
  "split_sep c [] = [[]]"
| "split_sep c (x # xs) =
     (let r = split_sep c xs
      in if x = c then [] # r else (x # hd r) # tl r)"

text \<open>\<open>sep.join(parts)\<close> for a one-character separator; \<open>",".join([])\<close> is \<open>""\<close>.\<close>

fun join_sep :: "char \<Rightarrow> string list \<Rightarrow> string" where
  "join_sep c [] = []"
| "join_sep c [p] = p"
| "join_sep c (p # q # ps) = p @ c # join_sep c (q # ps)"

text \<open>
  The codec of the wire frames. Encoding is line 107 of the multi-robot controller,
  \<open>",".join(map(str, data))\<close>; \<open>str\<close> of a scalar is the interpreter's and is the
  parameter \<open>str_of\<close>. Decoding is line 74, \<open>message.split(",")\<close>.
\<close>

definition encode_fields :: "('a \<Rightarrow> string) \<Rightarrow> 'a list \<Rightarrow> string" where
  "encode_fields str_of data = join_sep CHR '','' (map str_of data)"

definition decode_frame :: "string \<Rightarrow> string list" where
  "decode_frame message = split_sep CHR '','' message"

subsection \<open>\<open>int\<close> of a text\<close>

text \<open>
  Python's \<open>int(s)\<close> in base ten, for texts whose characters are the code points
  0 to 255 (a \<open>char\<close> is read as its code point): white space is stripped at both
  ends, one sign may lead, then come decimal digits, with single underscores allowed
  between digits. Anything else raises \<open>ValueError\<close>, here \<open>None\<close>. The white-space
  characters are those of \<open>str.isspace\<close> below 256.
\<close>

definition py_isspace :: "char \<Rightarrow> bool" where
  "py_isspace c = (of_char c \<in> {9, 10, 11, 12, 13, 28, 29, 30, 31, 32, 133, 160 :: nat})"

definition py_strip :: "string \<Rightarrow> string" where
  "py_strip s = rev (dropWhile py_isspace (rev (dropWhile py_isspace s)))"

definition is_digit :: "char \<Rightarrow> bool" where
  "is_digit c = (48 \<le> (of_char c :: nat) \<and> (of_char c :: nat) \<le> 57)"

definition digit_val :: "char \<Rightarrow> nat" where
  "digit_val c = of_char c - 48"

fun int_digits :: "nat \<Rightarrow> string \<Rightarrow> nat option" where
  "int_digits acc [] = Some acc"
| "int_digits acc [c] =
     (if is_digit c then Some (acc * 10 + digit_val c) else None)"
| "int_digits acc (c # d # ds) =
     (if c = CHR ''_'' then
        (if is_digit d then int_digits (acc * 10 + digit_val d) ds else None)
      else if is_digit c then int_digits (acc * 10 + digit_val c) (d # ds)
      else None)"

definition unsigned_int :: "string \<Rightarrow> nat option" where
  "unsigned_int u =
     (case u of
        [] \<Rightarrow> None
      | d # ds \<Rightarrow> if is_digit d then int_digits (digit_val d) ds else None)"

definition py_int :: "string \<Rightarrow> int option" where
  "py_int s =
     (case py_strip s of
        [] \<Rightarrow> None
      | c # r \<Rightarrow>
          if c = CHR ''-'' then map_option (\<lambda>n. - int n) (unsigned_int r)
          else if c = CHR ''+'' then map_option int (unsigned_int r)
          else map_option int (unsigned_int (c # r)))"

subsection \<open>Operations on floats\<close>

text \<open>
  \<open>round(x, 2)\<close>: Python rounds the exact value of the double to two decimals, ties to
  the even neighbour, and returns the double nearest to that decimal; \<open>nan\<close> and the
  infinities are returned as they are. The model returns the decimal itself. The
  comparisons that follow in the source are against decimal literals, and the
  nearest-double map is monotone and sends equal decimals to equal doubles, so they
  have the same outcome on the decimal as on the double.
\<close>

definition round_half_even :: "real \<Rightarrow> int" where
  "round_half_even y =
     (let f = \<lfloor>y\<rfloor>; d = y - of_int f
      in if d < 1 / 2 then f
         else if 1 / 2 < d then f + 1
         else if even f then f else f + 1)"

fun py_round2 :: "pyfloat \<Rightarrow> pyfloat" where
  "py_round2 (Finite x) = Finite (of_int (round_half_even (x * 100)) / 100)"
| "py_round2 PosInf = PosInf"
| "py_round2 NegInf = NegInf"
| "py_round2 NaN = NaN"

fun py_abs :: "pyfloat \<Rightarrow> pyfloat" where
  "py_abs (Finite x) = Finite \<bar>x\<bar>"
| "py_abs PosInf = PosInf"
| "py_abs NegInf = PosInf"
| "py_abs NaN = NaN"

text \<open>\<open>x > y\<close> on floats: every comparison with \<open>nan\<close> is false.\<close>

fun py_gt :: "pyfloat \<Rightarrow> pyfloat \<Rightarrow> bool" where
  "py_gt NaN y = False"
| "py_gt x NaN = False"
| "py_gt (Finite x) (Finite y) = (y < x)"
| "py_gt (Finite x) PosInf = False"
| "py_gt (Finite x) NegInf = True"
| "py_gt PosInf PosInf = False"
| "py_gt PosInf y = True"
| "py_gt NegInf y = False"

section \<open>The supervisor of the continuous cart-pole\<close>

text \<open>
  The attributes that \<open>CartPoleSupervisor.__init__\<close> sets. The episode score starts as the
  integer 0 and grows by the integer reward, so scores are integers.
\<close>

record supervisor =
  observationSpace :: nat
  actionSpace :: nat
  messageReceived :: "string list option"
  episodeScore :: int
  episodeScoreList :: "int list"
  test :: bool

definition supervisor_init :: supervisor where
  "supervisor_init =
     \<lparr> observationSpace = 4, actionSpace = 1, messageReceived = None,
       episodeScore = 0, episodeScoreList = [], test = False \<rparr>"

text \<open>
  What the supervisor reads from the simulator: \<open>getPosition()\<close> of the robot node is a
  vector of three floats, \<open>getVelocity()\<close> of a node is a vector of six.
\<close>

type_synonym vec3 = "pyfloat \<times> pyfloat \<times> pyfloat"
type_synonym vec6 = "pyfloat \<times> pyfloat \<times> pyfloat \<times> pyfloat \<times> pyfloat \<times> pyfloat"

record sim =
  robot_position :: vec3
  robot_velocity :: vec6
  poleEndpoint_velocity :: vec6

definition vec3_0 :: "vec3 \<Rightarrow> pyfloat" where
  "vec3_0 v = (case v of (x0, x1, x2) \<Rightarrow> x0)"

definition vec6_0 :: "vec6 \<Rightarrow> pyfloat" where
  "vec6_0 v = (case v of (x0, x1, x2, x3, x4, x5) \<Rightarrow> x0)"

definition vec6_4 :: "vec6 \<Rightarrow> pyfloat" where
  "vec6_4 v = (case v of (x0, x1, x2, x3, x4, x5) \<Rightarrow> x4)"

text \<open>
  Modelled from the spec: \<open>normalizeToRange\<close> lives in the module \<open>utilities\<close> of the
  supervisor's directory, which is not among the source files. The spec (4.4) gives its
  law: it maps \<open>v\<close> affinely from \<open>[lo, hi]\<close> to \<open>[a, b]\<close>; if \<open>clip\<close> is true the output
  is clamped to \<open>[a, b]\<close>; if false the output is left as it is.
\<close>

definition normalizeToRange :: "real \<Rightarrow> real \<Rightarrow> real \<Rightarrow> real \<Rightarrow> real \<Rightarrow> bool \<Rightarrow> real" where
  "normalizeToRange v lo hi a b clip =
     (let y = a + (v - lo) * (b - a) / (hi - lo)
      in if clip then max a (min b y) else y)"

text \<open>
  The type of the helper as \<open>get_observations\<close> calls it: on a float, with the four
  range bounds, and with the \<open>clip\<close> argument given (\<open>Some\<close>) or left to the helper's
  default (\<open>None\<close>, line 77).
\<close>

type_synonym normalizer = "pyfloat \<Rightarrow> real \<Rightarrow> real \<Rightarrow> real \<Rightarrow> real \<Rightarrow> bool option \<Rightarrow> pyfloat"

text \<open>
  The spec's law as such a helper: finite values go through \<open>normalizeToRange\<close>, with no
  clipping when the argument is left out; a value that is not finite is passed on.
\<close>

definition normalize_float :: normalizer where
  "normalize_float v lo hi a b clip =
     (case v of
        Finite x \<Rightarrow> Finite (normalizeToRange x lo hi a b (clip = Some True))
      | _ \<Rightarrow> v)"

text \<open>
  \<open>get_observations\<close>. The helper \<open>normalizeToRange\<close> (\<open>nrm\<close>) and Python's \<open>float\<close>
  (\<open>float_of\<close>) are parameters. \<open>recv\<close> is what \<open>self.handle_receiver()\<close>, inherited from
  the deepbots library, returned (or raised): \<open>None\<close> when the queue held no frame, else
  the comma-split text of a frame. The result comes with the supervisor as the method
  leaves it.
\<close>

definition get_observations ::
  "normalizer \<Rightarrow> (string \<Rightarrow> pyfloat option) \<Rightarrow> (py_error + string list option) \<Rightarrow>
   sim \<Rightarrow> supervisor \<Rightarrow> (py_error + pyfloat list) \<times> supervisor" where
  "get_observations nrm float_of recv w s =
     (let cartPosition = nrm (vec3_0 (robot_position w)) (- 0.4) 0.4 (- 1.0) 1.0 None;
          cartVelocity = nrm (vec6_0 (robot_velocity w)) (- 0.2) 0.2 (- 1.0) 1.0 (Some True)
      in case recv of
           Inl e \<Rightarrow> (Inl e, s)
         | Inr m \<Rightarrow>
             (let s' = s\<lparr>messageReceived := m\<rparr>;
                  poleAngle =
                    (case m of
                       Some msg \<Rightarrow>
                         (case msg of
                            [] \<Rightarrow> Inl IndexError
                          | f # _ \<Rightarrow>
                              (case float_of f of
                                 None \<Rightarrow> Inl ValueError
                               | Some x \<Rightarrow>
                                   Inr (nrm x (- 0.23) 0.23 (- 1.0) 1.0 (Some True))))
                     | None \<Rightarrow> Inr (Finite 0.0))
              in case poleAngle of
                   Inl e \<Rightarrow> (Inl e, s')
                 | Inr angle \<Rightarrow>
                     (let endpointVelocity =
                            nrm (vec6_4 (poleEndpoint_velocity w)) (- 1.5) 1.5 (- 1.0) 1.0
                              (Some True)
                      in (Inr [cartPosition, cartVelocity, angle, endpointVelocity], s'))))"

definition get_default_observation :: "supervisor \<Rightarrow> pyfloat list" where
  "get_default_observation s = replicate (observationSpace s) (Finite 0.0)"

definition get_reward :: "supervisor \<Rightarrow> 'a option \<Rightarrow> int" where
  "get_reward s action = 1"

text \<open>\<open>is_done\<close> changes nothing; it returns a truth value or raises.\<close>

definition is_done ::
  "(string \<Rightarrow> pyfloat option) \<Rightarrow> sim \<Rightarrow> supervisor \<Rightarrow> py_error + bool" where
  "is_done float_of w s =
     (if 195.0 < real_of_int (episodeScore s) then Inr True
      else
        (case (case messageReceived s of
                 Some msg \<Rightarrow>
                   (case msg of
                      [] \<Rightarrow> Inl IndexError
                    | f # _ \<Rightarrow>
                        (case float_of f of
                           None \<Rightarrow> Inl ValueError
                         | Some x \<Rightarrow> Inr (py_round2 x)))
               | None \<Rightarrow> Inr (Finite 0.0)) of
           Inl e \<Rightarrow> Inl e
         | Inr poleAngle \<Rightarrow>
             if py_gt (py_abs poleAngle) (Finite 0.261799388) then Inr True
             else
               (let cartPosition = py_round2 (vec3_0 (robot_position w))
                in if py_gt (py_abs cartPosition) (Finite 0.39) then Inr True
                   else Inr False)))"

text \<open>
  \<open>np.mean\<close> of a list of integers, and the slice \<open>xs[-100:]\<close> (the last hundred
  elements, or all of them when there are fewer).
\<close>

definition np_mean :: "int list \<Rightarrow> real" where
  "np_mean xs = real_of_int (sum_list xs) / real (length xs)"

definition last100 :: "'a list \<Rightarrow> 'a list" where
  "last100 xs = drop (length xs - 100) xs"

definition solved :: "supervisor \<Rightarrow> bool" where
  "solved s =
     (if 100 < length (episodeScoreList s) then
        (if 195.0 < np_mean (last100 (episodeScoreList s)) then True else False)
      else False)"

section \<open>The simulator as the robot controllers see it\<close>

text \<open>
  A robot controller reaches the simulator through devices that it looks up by name
  (\<open>getDevice\<close>); the handle of a device is its name, so two attributes that were looked
  up under one name are the same device. The world of a robot holds, for each device,
  what the controller can set or read, and \<open>calls\<close>, the device calls made so far, in the
  order in which they were made. A world file gives \<open>basicTimeStep\<close> as an integer.
\<close>

type_synonym devname = string

text \<open>
  A queued packet is represented by the text its payload decodes to as UTF-8;
  \<open>Undecodable\<close> is a payload on which \<open>decode("utf-8")\<close> raises.
\<close>

datatype packet = Text string | Undecodable

datatype event =
    Step int
  | Enable devname int
  | SetChannel devname int
  | GetQueueLength devname nat
  | GetData devname
  | NextPacket devname
  | SetPosition devname pyfloat
  | SetVelocity devname pyfloat
  | GetValue devname
  | Send devname string

record world =
  robot_name :: string
  basic_time_step :: int
  channel :: "devname \<Rightarrow> int"
  sampling_period :: "devname \<Rightarrow> int"
  queue :: "devname \<Rightarrow> packet list"
  sensor_value :: "devname \<Rightarrow> pyfloat"
  motor_position :: "devname \<Rightarrow> pyfloat"
  motor_velocity :: "devname \<Rightarrow> pyfloat"
  calls :: "event list"

text \<open>A method returns a value or raises, and leaves a world either way.\<close>

type_synonym 'a result = "(py_error + 'a) \<times> world"

definition enable :: "devname \<Rightarrow> int \<Rightarrow> world \<Rightarrow> world" where
  "enable d t w =
     w\<lparr>sampling_period := (sampling_period w)(d := t), calls := calls w @ [Enable d t]\<rparr>"

definition setChannel :: "devname \<Rightarrow> int \<Rightarrow> world \<Rightarrow> world" where
  "setChannel d n w = w\<lparr>channel := (channel w)(d := n), calls := calls w @ [SetChannel d n]\<rparr>"

definition setPosition :: "devname \<Rightarrow> pyfloat \<Rightarrow> world \<Rightarrow> world" where
  "setPosition d v w =
     w\<lparr>motor_position := (motor_position w)(d := v), calls := calls w @ [SetPosition d v]\<rparr>"

definition setVelocity :: "devname \<Rightarrow> pyfloat \<Rightarrow> world \<Rightarrow> world" where
  "setVelocity d v w =
     w\<lparr>motor_velocity := (motor_velocity w)(d := v), calls := calls w @ [SetVelocity d v]\<rparr>"

text \<open>
  \<open>getQueueLength\<close> is logged with the length it returns. \<open>getData\<close> returns the first
  packet of the queue, and \<open>None\<close> when there is none.
\<close>

definition getQueueLength :: "devname \<Rightarrow> world \<Rightarrow> nat \<times> world" where
  "getQueueLength d w =
     (length (queue w d), w\<lparr>calls := calls w @ [GetQueueLength d (length (queue w d))]\<rparr>)"

definition getData :: "devname \<Rightarrow> world \<Rightarrow> packet option \<times> world" where
  "getData d w =
     ((case queue w d of [] \<Rightarrow> None | p # _ \<Rightarrow> Some p), w\<lparr>calls := calls w @ [GetData d]\<rparr>)"

definition nextPacket :: "devname \<Rightarrow> world \<Rightarrow> world" where
  "nextPacket d w = w\<lparr>queue := (queue w)(d := tl (queue w d)), calls := calls w @ [NextPacket d]\<rparr>"

definition getValue :: "devname \<Rightarrow> world \<Rightarrow> pyfloat \<times> world" where
  "getValue d w = (sensor_value w d, w\<lparr>calls := calls w @ [GetValue d]\<rparr>)"

definition send :: "devname \<Rightarrow> string \<Rightarrow> world \<Rightarrow> world" where
  "send d payload w = w\<lparr>calls := calls w @ [Send d payload]\<rparr>"

definition decode_utf8 :: "packet \<Rightarrow> py_error + string" where
  "decode_utf8 p = (case p of Text t \<Rightarrow> Inr t | Undecodable \<Rightarrow> Inl UnicodeDecodeError)"

text \<open>
  One call of \<open>robot.step\<close>: the simulator advances by a time step. For the controller
  this delivers the packets that arrived on its receiver, renews the reading of its
  position sensor, and returns an integer.
\<close>

record tick_input =
  step_result :: int
  arrivals :: "packet list"
  reading :: pyfloat

definition robot_step :: "tick_input \<Rightarrow> int \<Rightarrow> world \<Rightarrow> int \<times> world" where
  "robot_step t ms w =
     (step_result t,
      w\<lparr>queue := (queue w)(''receiver'' := queue w ''receiver'' @ arrivals t),
        sensor_value := (sensor_value w)(''polePosSensor'' := reading t),
        calls := calls w @ [Step ms]\<rparr>)"

section \<open>The robot of the multi-robot cart-pole\<close>

record robot =
  robot_num :: int
  timestep :: int
  emitter :: devname
  reciever :: devname
  receiver :: devname
  positionSensor :: devname
  wheels :: "devname list"

definition initialize_comms ::
  "devname \<Rightarrow> devname \<Rightarrow> int \<Rightarrow> world \<Rightarrow> (devname \<times> devname) \<times> world" where
  "initialize_comms emitter_name receiver_name ts w =
     ((emitter_name, receiver_name), enable receiver_name ts w)"

text \<open>
  The loop \<open>for i in range(len(self.wheels))\<close> of \<open>setup_motors\<close> and of
  \<open>use_message_data\<close>: each wheel in turn gets the position \<open>inf\<close> and the velocity.
\<close>

fun set_all_wheels :: "devname list \<Rightarrow> pyfloat \<Rightarrow> world \<Rightarrow> world" where
  "set_all_wheels [] v w = w"
| "set_all_wheels (d # ds) v w = set_all_wheels ds v (setVelocity d v (setPosition d PosInf w))"

definition setup_motors :: "world \<Rightarrow> devname list \<times> world" where
  "setup_motors w =
     (let ws = [''wheel1'', ''wheel2'', ''wheel3'', ''wheel4'']
      in (ws, set_all_wheels ws (Finite 0.0) w))"

text \<open>
  \<open>CartPoleRobot.__init__\<close>. The first two lines of the body are the constructor of the
  base class \<open>RobotEmitterReceiverCSV\<close> of the deepbots library, which reads the time
  step and stores \<open>self.emitter, self.receiver = self.initialize_comms("emitter",
  "receiver")\<close>, calling the method that this class overrides. The class then stores the
  second result of its own call in the attribute it spells \<open>reciever\<close>.
\<close>

definition robot_init :: "world \<Rightarrow> robot result" where
  "robot_init w =
     (let ts0 = basic_time_step w;
          ((em0, rc0), w1) = initialize_comms ''emitter'' ''receiver'' ts0 w
      in case robot_name w1 of
           [] \<Rightarrow> (Inl IndexError, w1)
         | _ # _ \<Rightarrow>
             (case py_int [last (robot_name w1)] of
                None \<Rightarrow> (Inl ValueError, w1)
              | Some n \<Rightarrow>
                  (let ts = basic_time_step w1;
                       ((em, rc), w2) = initialize_comms ''emitter'' ''receiver'' ts w1;
                       w3 = setChannel em n w2;
                       w4 = setChannel rc n w3;
                       w5 = enable ''polePosSensor'' ts w4;
                       (ws, w6) = setup_motors w5
                   in (Inr \<lparr> robot_num = n, timestep = ts, emitter = em, reciever = rc,
                             receiver = rc0, positionSensor = ''polePosSensor'',
                             wheels = ws \<rparr>, w6))))"

definition use_message_data :: "string list \<Rightarrow> robot \<Rightarrow> world \<Rightarrow> unit result" where
  "use_message_data message r w =
     (case message of
        [] \<Rightarrow> (Inl IndexError, w)
      | f # _ \<Rightarrow>
          (case py_int f of
             None \<Rightarrow> (Inl ValueError, w)
           | Some action \<Rightarrow>
               if \<not> (action = 0 \<or> action = 1) then (Inl (AssertionError action), w)
               else
                 (let motorSpeed = (if action = 0 then Finite 5.0 else Finite (- 5.0))
                  in (Inr (), set_all_wheels (wheels r) motorSpeed w))))"

text \<open>
  \<open>handle_receiver\<close>: while the queue of the receiver is not empty, take its first
  packet, decode and split it, use it, and only then drop it from the queue. (On an
  empty queue the simulator's \<open>getData\<close> gives \<open>None\<close>, which has no \<open>decode\<close>.)
\<close>

function handle_receiver :: "robot \<Rightarrow> world \<Rightarrow> unit result" where
  "handle_receiver r w =
     (let (n, w0) = getQueueLength (receiver r) w
      in if 0 < n then
           (let (data, w1) = getData (receiver r) w0
            in case data of
                 None \<Rightarrow> (Inl AttributeError, w1)
               | Some p \<Rightarrow>
                   (case decode_utf8 p of
                      Inl e \<Rightarrow> (Inl e, w1)
                    | Inr frame \<Rightarrow>
                        (case use_message_data (decode_frame frame) r w1 of
                           (Inl e, w2) \<Rightarrow> (Inl e, w2)
                         | (Inr u, w2) \<Rightarrow> handle_receiver r (nextPacket (receiver r) w2))))
         else (Inr (), w0))"
  by pat_completeness auto
termination
proof -
  have wheels_queue: "queue (set_all_wheels ds v x) = queue x" for ds v x
    by (induction ds arbitrary: x) (simp_all add: setVelocity_def setPosition_def)
  show ?thesis
  proof (relation "measure (\<lambda>(r, w). length (queue w (receiver r)))")
    show "wf (measure (\<lambda>(r, w). length (queue w (receiver r))))"
      by simp
  qed (auto simp add: wheels_queue use_message_data_def Let_def getData_def nextPacket_def
        getQueueLength_def split: list.splits option.splits if_splits)
qed

declare handle_receiver.simps [simp del]

text \<open>
  What \<open>create_message\<close> can hand to \<open>handle_emitter\<close>, which tells a list from a text
  from anything else by \<open>type(data)\<close>.
\<close>

datatype message_data = DataList "pyfloat list" | DataStr string | DataOther

definition create_message :: "robot \<Rightarrow> world \<Rightarrow> message_data \<times> world" where
  "create_message r w =
     (let (v, w1) = getValue (positionSensor r) w in (DataList [v], w1))"

text \<open>\<open>str\<close> of a float is the interpreter's and is the parameter \<open>str_of\<close>.\<close>

definition handle_emitter :: "(pyfloat \<Rightarrow> string) \<Rightarrow> robot \<Rightarrow> world \<Rightarrow> unit result" where
  "handle_emitter str_of r w =
     (let (data, w1) = create_message r w
      in case data of
           DataList xs \<Rightarrow> (Inr (), send (emitter r) (encode_fields str_of xs) w1)
         | DataStr t \<Rightarrow> (Inr (), send (emitter r) t w1)
         | DataOther \<Rightarrow> (Inl TypeError, w1))"

text \<open>
  \<open>run\<close>, on the time steps that the simulator goes through while it is observed: the
  loop has left (\<open>Exited\<close>), an exception has ended the controller (\<open>Raised\<close>), or the
  loop is waiting for the next step (\<open>Running\<close>).
\<close>

datatype run_state = Exited | Raised py_error | Running

fun run ::
  "(pyfloat \<Rightarrow> string) \<Rightarrow> tick_input list \<Rightarrow> robot \<Rightarrow> world \<Rightarrow> run_state \<times> world" where
  "run str_of [] r w = (Running, w)"
| "run str_of (t # ts) r w =
     (let (ret, w1) = robot_step t (timestep r) w
      in if ret \<noteq> 1 then
           (case handle_receiver r w1 of
              (Inl e, w2) \<Rightarrow> (Raised e, w2)
            | (Inr u, w2) \<Rightarrow>
                (case handle_emitter str_of r w2 of
                   (Inl e, w3) \<Rightarrow> (Raised e, w3)
                 | (Inr u', w3) \<Rightarrow> run str_of ts r w3))
         else (Exited, w1))"

section \<open>The robot of the continuous cart-pole\<close>

record continuous_robot =
  c_timestep :: int
  c_emitter :: devname
  c_receiver :: devname
  c_positionSensor :: devname
  c_wheels :: "devname list"

text \<open>
  Its \<open>__init__\<close>: the constructor of the library's base class (time step, emitter and
  receiver, as above), then the position sensor and the four wheels.
\<close>

definition continuous_robot_init :: "world \<Rightarrow> continuous_robot \<times> world" where
  "continuous_robot_init w =
     (let ts = basic_time_step w;
          ((em, rc), w1) = initialize_comms ''emitter'' ''receiver'' ts w;
          w2 = enable ''polePosSensor'' ts w1;
          (ws, w3) = setup_motors w2
      in (\<lparr> c_timestep = ts, c_emitter = em, c_receiver = rc,
            c_positionSensor = ''polePosSensor'', c_wheels = ws \<rparr>, w3))"

text \<open>
  Its \<open>use_message_data\<close>. Python's \<open>float\<close> of a text is the parameter \<open>float_of\<close>, and
  the product of two doubles, which the processor rounds, is the parameter \<open>fmul\<close>.
\<close>

definition use_message_data_continuous ::
  "(string \<Rightarrow> pyfloat option) \<Rightarrow> (pyfloat \<Rightarrow> pyfloat \<Rightarrow> pyfloat) \<Rightarrow>
   string list \<Rightarrow> continuous_robot \<Rightarrow> world \<Rightarrow> unit result" where
  "use_message_data_continuous float_of fmul message r w =
     (case message of
        [] \<Rightarrow> (Inl IndexError, w)
      | f # _ \<Rightarrow>
          (case float_of f of
             None \<Rightarrow> (Inl ValueError, w)
           | Some x \<Rightarrow>
               (let motorSpeed = fmul x (Finite 5.0)
                in (Inr (), set_all_wheels (c_wheels r) motorSpeed w))))"

section \<open>Reading the log of device calls\<close>

fun is_SetChannel :: "event \<Rightarrow> bool" where
  "is_SetChannel (SetChannel d n) = True"
| "is_SetChannel e = False"

fun is_Send :: "event \<Rightarrow> bool" where
  "is_Send (Send d payload) = True"
| "is_Send e = False"

text \<open>
  The order of the device calls of one robot, as an automaton over the log. A tick
  starts with \<open>Step\<close>. While \<open>Draining\<close>, the robot polls the queue, takes packets and
  sets its wheels; the poll that returns 0 ends the draining. Only then may the sensor
  be read (\<open>GetValue\<close>), and only after that may the one frame of the tick be sent,
  which makes the robot wait for the next \<open>Step\<close>. Any other call is out of order.
\<close>

datatype phase = Awaiting | Draining | Drained | Sensed

fun next_phase :: "phase \<Rightarrow> event \<Rightarrow> phase option" where
  "next_phase Awaiting (Step ms) = Some Draining"
| "next_phase Draining (GetQueueLength d 0) = Some Drained"
| "next_phase Draining (GetQueueLength d (Suc n)) = Some Draining"
| "next_phase Draining (GetData d) = Some Draining"
| "next_phase Draining (NextPacket d) = Some Draining"
| "next_phase Draining (SetPosition d v) = Some Draining"
| "next_phase Draining (SetVelocity d v) = Some Draining"
| "next_phase Drained (GetValue d) = Some Sensed"
| "next_phase Sensed (Send d payload) = Some Awaiting"
| "next_phase p e = None"

fun tick_order :: "phase \<Rightarrow> event list \<Rightarrow> phase option" where
  "tick_order p [] = Some p"
| "tick_order p (e # es) =
     (case next_phase p e of None \<Rightarrow> None | Some q \<Rightarrow> tick_order q es)"

section \<open>Concrete states\<close>

text \<open>A simulator state of the supervisor with the cart at \<open>x = 0.1\<close> and at rest.\<close>

definition sim_at_rest :: sim where
  "sim_at_rest =
     \<lparr> robot_position = (Finite 0.1, Finite 0, Finite 0),
       robot_velocity = (Finite 0, Finite 0, Finite 0, Finite 0, Finite 0, Finite 0),
       poleEndpoint_velocity = (Finite 0, Finite 0, Finite 0, Finite 0, Finite 0, Finite 0) \<rparr>"

text \<open>A few values of Python's \<open>float\<close>, enough to run the supervisor on them.\<close>

definition float_table :: "string \<Rightarrow> pyfloat option" where
  "float_table =
     map_of [(''0.2651'', Finite 0.2651), (''0.2649'', Finite 0.2649), (''0.5'', Finite 0.5),
             (''-1.0'', Finite (- 1)), (''nan'', NaN), (''inf'', PosInf)]"

text \<open>
  The world of the robot named \<open>robot3\<close> before its controller starts: every device on
  channel 0, nothing queued, motors at rest, no call made yet.
\<close>

definition world_robot3 :: world where
  "world_robot3 =
     \<lparr> robot_name = ''robot3'', basic_time_step = 32, channel = (\<lambda>d. 0),
       sampling_period = (\<lambda>d. 0), queue = (\<lambda>d. []), sensor_value = (\<lambda>d. NaN),
       motor_position = (\<lambda>d. Finite 0), motor_velocity = (\<lambda>d. Finite 0), calls = [] \<rparr>"

text \<open>The robot object that the constructor builds in that world.\<close>

definition robot3 :: robot where
  "robot3 =
     \<lparr> robot_num = 3, timestep = 32, emitter = ''emitter'', reciever = ''receiver'',
       receiver = ''receiver'', positionSensor = ''polePosSensor'',
       wheels = [''wheel1'', ''wheel2'', ''wheel3'', ''wheel4''] \<rparr>"

text \<open>That world with a backlog of three command frames on the receiver.\<close>

definition world_backlog :: world where
  "world_backlog =
     world_robot3\<lparr>queue :=
       (\<lambda>d. if d = ''receiver'' then [Text ''1'', Text ''1'', Text ''0''] else [])\<rparr>"

text \<open>Two time steps: two command frames arrive in the first, none in the second.\<close>

definition two_ticks :: "tick_input list" where
  "two_ticks =
     [\<lparr> step_result = 0, arrivals = [Text ''0'', Text ''1''], reading = Finite 0.01 \<rparr>,
      \<lparr> step_result = 0, arrivals = [], reading = Finite 0.02 \<rparr>]"

text \<open>
  A product for \<open>fmul\<close> to run the continuous robot on: exact on finite values, \<open>nan\<close>
  otherwise.
\<close>

definition exact_mul :: "pyfloat \<Rightarrow> pyfloat \<Rightarrow> pyfloat" where
  "exact_mul x y = (case (x, y) of (Finite a, Finite b) \<Rightarrow> Finite (a * b) | _ \<Rightarrow> NaN)"

section \<open>The codec\<close>

lemma split_sep_not_Nil: "split_sep c s \<noteq> []"
  by (induction s) (simp_all add: Let_def)

lemma split_sep_no_sep: "c \<notin> set s \<Longrightarrow> split_sep c s = [s]"
  by (induction s) (auto simp add: Let_def)

lemma split_sep_append_sep:
  "c \<notin> set p \<Longrightarrow> split_sep c (p @ c # s) = p # split_sep c s"
  by (induction p) (auto simp add: Let_def)

lemma split_join_nonempty:
  "ps \<noteq> [] \<Longrightarrow> \<forall>p \<in> set ps. c \<notin> set p \<Longrightarrow> split_sep c (join_sep c ps) = ps"
proof (induction c ps rule: join_sep.induct)
  case (1 c)
  then show ?case by simp
next
  case (2 c p)
  then show ?case by (simp add: split_sep_no_sep)
next
  case (3 c p q ps)
  then show ?case by (simp add: split_sep_append_sep)
qed

text \<open>
  C4, as stated: for every sequence \<open>xs\<close> of scalars whose string forms hold no comma,
  decoding the encoded frame gives the string form of each element, in order.
  It fails at the empty sequence: \<open>",".join([])\<close> is the empty text and
  \<open>"".split(",")\<close> is the one-token list \<open>[""]\<close>, not \<open>[]\<close>.
\<close>

theorem codec_roundtrip_empty_counterexample:
  "decode_frame (encode_fields id ([] :: string list)) = [[]] \<and>
   decode_frame (encode_fields id ([] :: string list)) \<noteq> map id ([] :: string list)"
  by (simp add: decode_frame_def encode_fields_def)

text \<open>
  C4, amended: for every non-empty sequence \<open>xs\<close> of scalars whose string forms hold no
  comma, \<open>decode_frame (encode_fields str_of xs)\<close> is the list of the string forms of the
  elements of \<open>xs\<close>, in the original order.
\<close>

theorem codec_roundtrip:
  assumes "xs \<noteq> []"
    and "\<forall>x \<in> set xs. CHR '','' \<notin> set (str_of x)"
  shows "decode_frame (encode_fields str_of xs) = map str_of xs"
  using assms by (simp add: decode_frame_def encode_fields_def split_join_nonempty)

theorem codec_roundtrip_witness:
  "decode_frame (encode_fields id [''0.0421'', ''1'', ''-5'']) = [''0.0421'', ''1'', ''-5'']"
  using codec_roundtrip [of "[''0.0421'', ''1'', ''-5'']" id] by simp

section \<open>The supervisor's decisions\<close>

lemma last100_suffix: "\<exists>older. xs = older @ last100 xs"
  unfolding last100_def by (metis append_take_drop_id)

lemma last100_length: "100 < length xs \<Longrightarrow> length (last100 xs) = 100"
  unfolding last100_def by simp

text \<open>
  C3: \<open>solved\<close> is true exactly when the score history has more than 100 entries and the
  arithmetic mean of its last 100 entries exceeds 195; the last 100 entries are the
  100-element suffix of the history and their mean is their sum over 100. For every
  history of length at most 100 it is false, and for a history of length 101 whose last
  100 entries average 196 it is true.
\<close>

theorem solved_iff:
  "(solved s \<longleftrightarrow>
      100 < length (episodeScoreList s) \<and> 195 < np_mean (last100 (episodeScoreList s))) \<and>
   (100 < length (episodeScoreList s) \<longrightarrow>
      length (last100 (episodeScoreList s)) = 100 \<and>
      (\<exists>older. episodeScoreList s = older @ last100 (episodeScoreList s)) \<and>
      np_mean (last100 (episodeScoreList s)) =
        real_of_int (sum_list (last100 (episodeScoreList s))) / 100) \<and>
   (length (episodeScoreList s) \<le> 100 \<longrightarrow> \<not> solved s) \<and>
   (length (episodeScoreList s) = 101 \<and> np_mean (last100 (episodeScoreList s)) = 196
      \<longrightarrow> solved s)"
  by (auto simp add: solved_def last100_length last100_suffix np_mean_def)

theorem solved_iff_witness:
  "solved (supervisor_init\<lparr>episodeScoreList := 0 # replicate 100 196\<rparr>) \<and>
   \<not> solved (supervisor_init\<lparr>episodeScoreList := replicate 100 200\<rparr>)"
  using solved_iff [of "supervisor_init\<lparr>episodeScoreList := 0 # replicate 100 196\<rparr>"]
    solved_iff [of "supervisor_init\<lparr>episodeScoreList := replicate 100 200\<rparr>"]
  by (simp add: last100_def np_mean_def sum_list_replicate)

text \<open>
  C2: when the supervisor holds no message, or a message whose first field \<open>float\<close>
  reads, \<open>is_done\<close> returns, and it returns true exactly when the episode score exceeds
  195, or the absolute value of the pole angle of the message, rounded to two decimals,
  exceeds 0.261799388, or the absolute value of the cart's x position, rounded to two
  decimals, exceeds 0.39. With a rounded angle of exactly 0.27 it returns true; with
  exactly 0.26, and score and position within their bounds, it returns false.
\<close>

theorem is_done_iff:
  assumes "messageReceived s = None \<or>
           (\<exists>f rest x. messageReceived s = Some (f # rest) \<and> float_of f = Some x)"
  shows "is_done float_of w s =
           Inr (195 < real_of_int (episodeScore s) \<or>
                (\<exists>f rest x. messageReceived s = Some (f # rest) \<and> float_of f = Some x \<and>
                   py_gt (py_abs (py_round2 x)) (Finite 0.261799388)) \<or>
                py_gt (py_abs (py_round2 (vec3_0 (robot_position w)))) (Finite 0.39)) \<and>
         (\<forall>f rest x. messageReceived s = Some (f # rest) \<and> float_of f = Some x \<and>
              py_round2 x = Finite 0.27 \<longrightarrow> is_done float_of w s = Inr True) \<and>
         (\<forall>f rest x. messageReceived s = Some (f # rest) \<and> float_of f = Some x \<and>
              py_round2 x = Finite 0.26 \<and> real_of_int (episodeScore s) \<le> 195 \<and>
              \<not> py_gt (py_abs (py_round2 (vec3_0 (robot_position w)))) (Finite 0.39)
              \<longrightarrow> is_done float_of w s = Inr False)"
  using assms by (auto simp add: is_done_def)

theorem is_done_iff_witness:
  "is_done float_table sim_at_rest (supervisor_init\<lparr>messageReceived := Some [''0.2651'']\<rparr>)
     = Inr True \<and>
   is_done float_table sim_at_rest (supervisor_init\<lparr>messageReceived := Some [''0.2649'']\<rparr>)
     = Inr False \<and>
   is_done float_table sim_at_rest (supervisor_init\<lparr>messageReceived := Some [''nan'']\<rparr>)
     = Inr False \<and>
   is_done float_table sim_at_rest supervisor_init = Inr False \<and>
   is_done float_table sim_at_rest (supervisor_init\<lparr>episodeScore := 196\<rparr>) = Inr True"
  using is_done_iff [of "supervisor_init\<lparr>messageReceived := Some [''0.2651'']\<rparr>"
        float_table sim_at_rest]
    is_done_iff [of "supervisor_init\<lparr>messageReceived := Some [''0.2649'']\<rparr>"
        float_table sim_at_rest]
    is_done_iff [of "supervisor_init\<lparr>messageReceived := Some [''nan'']\<rparr>"
        float_table sim_at_rest]
    is_done_iff [of supervisor_init float_table sim_at_rest]
    is_done_iff [of "supervisor_init\<lparr>episodeScore := 196\<rparr>" float_table sim_at_rest]
  by (simp add: round_half_even_def supervisor_init_def vec3_0_def sim_at_rest_def
      float_table_def)

text \<open>
  A message whose first field \<open>float\<close> cannot read makes \<open>is_done\<close> raise, unless the
  score alone decides.
\<close>

lemma is_done_unreadable:
  "real_of_int (episodeScore s) \<le> 195 \<Longrightarrow> messageReceived s = Some (f # rest) \<Longrightarrow>
   float_of f = None \<Longrightarrow> is_done float_of w s = Inl ValueError"
  by (simp add: is_done_def)

subsection \<open>Observations\<close>

text \<open>
  C6: when the receiver hands over no message, \<open>get_observations\<close> does not raise: it
  returns the list of four observations whose pole angle is the default 0.0, whatever
  message the supervisor held before, and leaves the supervisor with no message. The
  default observation is the zero vector of the width \<open>observationSpace\<close>, which the
  constructor sets to 4.
\<close>

theorem get_observations_no_message:
  "get_observations nrm float_of (Inr None) w s =
     (Inr [nrm (vec3_0 (robot_position w)) (- 0.4) 0.4 (- 1) 1 None,
           nrm (vec6_0 (robot_velocity w)) (- 0.2) 0.2 (- 1) 1 (Some True),
           Finite 0,
           nrm (vec6_4 (poleEndpoint_velocity w)) (- 1.5) 1.5 (- 1) 1 (Some True)],
      s\<lparr>messageReceived := None\<rparr>) \<and>
   length (get_default_observation s) = observationSpace s \<and>
   set (get_default_observation s) \<subseteq> {Finite 0} \<and>
   get_default_observation supervisor_init = [Finite 0, Finite 0, Finite 0, Finite 0]"
  by (auto simp add: get_observations_def get_default_observation_def supervisor_init_def
      numeral_eq_Suc)

theorem get_observations_no_message_witness:
  "get_observations normalize_float float_table (Inr None) sim_at_rest
     (supervisor_init\<lparr>messageReceived := Some [''0.5'']\<rparr>) =
     (Inr [Finite 0.25, Finite 0, Finite 0, Finite 0], supervisor_init)"
  using get_observations_no_message [of normalize_float float_table sim_at_rest
      "supervisor_init\<lparr>messageReceived := Some [''0.5'']\<rparr>"]
  by (simp add: normalize_float_def normalizeToRange_def sim_at_rest_def vec3_0_def vec6_0_def
      vec6_4_def supervisor_init_def)

subsection \<open>Normalisation\<close>

lemma normalize_unclipped_affine:
  "normalizeToRange ((1 - t) * v + t * u) lo hi a b False =
     (1 - t) * normalizeToRange v lo hi a b False + t * normalizeToRange u lo hi a b False"
proof -
  define k where "k = (b - a) / (hi - lo)"
  have eq: "normalizeToRange x lo hi a b False = a + (x - lo) * k" for x
    by (simp add: normalizeToRange_def k_def)
  show ?thesis
    unfolding eq by (simp add: algebra_simps)
qed

lemma normalize_unclipped_lo: "lo \<noteq> hi \<Longrightarrow> normalizeToRange lo lo hi a b False = a"
  by (simp add: normalizeToRange_def)

lemma normalize_unclipped_hi: "lo \<noteq> hi \<Longrightarrow> normalizeToRange hi lo hi a b False = b"
  by (simp add: normalizeToRange_def)

lemma normalize_unclipped_mono:
  assumes "lo < hi" "a \<le> b" "v \<le> u"
  shows "normalizeToRange v lo hi a b False \<le> normalizeToRange u lo hi a b False"
proof -
  have "(v - lo) * (b - a) \<le> (u - lo) * (b - a)"
    using assms by (intro mult_right_mono) simp_all
  then have "(v - lo) * (b - a) / (hi - lo) \<le> (u - lo) * (b - a) / (hi - lo)"
    using assms(1) by (simp add: divide_right_mono)
  then show ?thesis by (simp add: normalizeToRange_def)
qed

lemma normalize_unclipped_strict:
  assumes "lo < hi" "a < b" "v < u"
  shows "normalizeToRange v lo hi a b False < normalizeToRange u lo hi a b False"
proof -
  have "(v - lo) * (b - a) < (u - lo) * (b - a)"
    using assms by (intro mult_strict_right_mono) simp_all
  then have "(v - lo) * (b - a) / (hi - lo) < (u - lo) * (b - a) / (hi - lo)"
    using assms(1) by (simp add: divide_strict_right_mono)
  then show ?thesis by (simp add: normalizeToRange_def)
qed

lemma normalize_clip_eq:
  "normalizeToRange v lo hi a b True = max a (min b (normalizeToRange v lo hi a b False))"
  by (simp add: normalizeToRange_def)

text \<open>
  C7: for a source range \<open>lo < hi\<close>, \<open>normalizeToRange\<close> without clipping is the affine
  map that sends \<open>lo\<close> to \<open>a\<close> and \<open>hi\<close> to \<open>b\<close>. With the target \<open>[-1, 1]\<close> and clipping it
  is monotonic in \<open>v\<close>, sends \<open>lo\<close> to \<open>-1\<close> and \<open>hi\<close> to \<open>1\<close>, and its output always lies
  in \<open>[-1, 1]\<close>; without clipping a \<open>v\<close> below \<open>lo\<close> gives an output below \<open>-1\<close> and a \<open>v\<close>
  above \<open>hi\<close> an output above \<open>1\<close>.
\<close>

theorem normalize_law:
  assumes "lo < hi"
  shows "normalizeToRange lo lo hi a b False = a \<and>
         normalizeToRange hi lo hi a b False = b \<and>
         (\<forall>t v u. normalizeToRange ((1 - t) * v + t * u) lo hi a b False =
            (1 - t) * normalizeToRange v lo hi a b False +
            t * normalizeToRange u lo hi a b False) \<and>
         (\<forall>v u. v \<le> u \<longrightarrow>
            normalizeToRange v lo hi (- 1) 1 True \<le> normalizeToRange u lo hi (- 1) 1 True) \<and>
         normalizeToRange lo lo hi (- 1) 1 True = - 1 \<and>
         normalizeToRange hi lo hi (- 1) 1 True = 1 \<and>
         (\<forall>v. - 1 \<le> normalizeToRange v lo hi (- 1) 1 True \<and>
              normalizeToRange v lo hi (- 1) 1 True \<le> 1) \<and>
         (\<forall>v. v < lo \<longrightarrow> normalizeToRange v lo hi (- 1) 1 False < - 1) \<and>
         (\<forall>v. hi < v \<longrightarrow> 1 < normalizeToRange v lo hi (- 1) 1 False)"
proof -
  have ne: "lo \<noteq> hi" using assms by simp
  have lo1: "normalizeToRange lo lo hi (- 1) 1 False = - 1"
    and hi1: "normalizeToRange hi lo hi (- 1) 1 False = 1"
    using ne by (simp_all add: normalize_unclipped_lo normalize_unclipped_hi)
  have mono: "normalizeToRange v lo hi (- 1) 1 True \<le> normalizeToRange u lo hi (- 1) 1 True"
    if "v \<le> u" for v u
    using normalize_unclipped_mono [OF assms _ that, of "- 1" 1]
    by (simp add: normalize_clip_eq)
  have below: "normalizeToRange v lo hi (- 1) 1 False < - 1" if "v < lo" for v
    using normalize_unclipped_strict [OF assms _ that, of "- 1" 1] lo1 by simp
  have above: "1 < normalizeToRange v lo hi (- 1) 1 False" if "hi < v" for v
    using normalize_unclipped_strict [OF assms _ that, of "- 1" 1] hi1 by simp
  show ?thesis
    using ne mono below above
    by (simp add: normalize_unclipped_lo normalize_unclipped_hi normalize_unclipped_affine
        normalize_clip_eq lo1 hi1)
qed

theorem normalize_law_witness:
  "normalizeToRange (- 0.4) (- 0.4) 0.4 (- 1) 1 True = - 1 \<and>
   normalizeToRange 0.4 (- 0.4) 0.4 (- 1) 1 True = 1 \<and>
   normalizeToRange 0.2 (- 0.4) 0.4 (- 1) 1 True \<le> normalizeToRange 0.3 (- 0.4) 0.4 (- 1) 1 True \<and>
   normalizeToRange 0.5 (- 0.4) 0.4 (- 1) 1 True \<le> 1 \<and>
   1 < normalizeToRange 0.5 (- 0.4) 0.4 (- 1) 1 False \<and>
   normalizeToRange 0.5 (- 0.4) 0.4 (- 1) 1 False = 1.25"
  using normalize_law [of "- 0.4" "0.4" "- 1" 1]
  by (simp add: normalizeToRange_def)

section \<open>The robots\<close>

subsection \<open>Setting the wheels\<close>

lemma set_all_wheels_velocity:
  "motor_velocity (set_all_wheels ds v w) = (\<lambda>d. if d \<in> set ds then v else motor_velocity w d)"
  by (induction ds arbitrary: w) (auto simp add: setVelocity_def setPosition_def)

lemma set_all_wheels_position:
  "motor_position (set_all_wheels ds v w) =
     (\<lambda>d. if d \<in> set ds then PosInf else motor_position w d)"
  by (induction ds arbitrary: w) (auto simp add: setVelocity_def setPosition_def)

lemma set_all_wheels_frame:
  "queue (set_all_wheels ds v w) = queue w"
  "channel (set_all_wheels ds v w) = channel w"
  "sensor_value (set_all_wheels ds v w) = sensor_value w"
  by (induction ds arbitrary: w) (simp_all add: setVelocity_def setPosition_def)

lemma set_all_wheels_calls:
  "calls (set_all_wheels ds v w) =
     calls w @ concat (map (\<lambda>d. [SetPosition d PosInf, SetVelocity d v]) ds)"
  by (induction ds arbitrary: w) (simp_all add: setVelocity_def setPosition_def)

text \<open>
  C5: when the first field of the command reads as an integer other than 0 and 1,
  \<open>use_message_data\<close> raises the assertion error and leaves the world as it was, so no
  wheel is set; for action 0 it sets the velocity of every wheel to 5.0, for action 1
  to -5.0 (with the position \<open>inf\<close>), and touches no other motor. The frame \<open>"2"\<close>
  reads as 2 and raises.
\<close>

theorem use_message_data_actions:
  "(\<forall>f rest a. message = f # rest \<and> py_int f = Some a \<and> a \<noteq> 0 \<and> a \<noteq> 1 \<longrightarrow>
      use_message_data message r w = (Inl (AssertionError a), w)) \<and>
   (\<forall>f rest. message = f # rest \<and> py_int f = Some 0 \<longrightarrow>
      (\<exists>w'. use_message_data message r w = (Inr (), w') \<and>
         (\<forall>d \<in> set (wheels r). motor_velocity w' d = Finite 5 \<and> motor_position w' d = PosInf) \<and>
         (\<forall>d. d \<notin> set (wheels r) \<longrightarrow>
            motor_velocity w' d = motor_velocity w d \<and> motor_position w' d = motor_position w d))) \<and>
   (\<forall>f rest. message = f # rest \<and> py_int f = Some 1 \<longrightarrow>
      (\<exists>w'. use_message_data message r w = (Inr (), w') \<and>
         (\<forall>d \<in> set (wheels r). motor_velocity w' d = Finite (- 5) \<and> motor_position w' d = PosInf) \<and>
         (\<forall>d. d \<notin> set (wheels r) \<longrightarrow>
            motor_velocity w' d = motor_velocity w d \<and> motor_position w' d = motor_position w d))) \<and>
   py_int ''2'' = Some 2 \<and>
   use_message_data (decode_frame ''2'') r w = (Inl (AssertionError 2), w)"
proof -
  have two: "py_int ''2'' = Some 2"
    by (simp add: py_int_def py_strip_def py_isspace_def unsigned_int_def is_digit_def
        digit_val_def)
  have dec: "decode_frame ''2'' = [''2'']"
    by (simp add: decode_frame_def)
  show ?thesis
    by (simp add: use_message_data_def two dec set_all_wheels_velocity set_all_wheels_position)
qed

lemma py_int_digits:
  "py_int ''0'' = Some 0" "py_int ''1'' = Some 1" "py_int ''2'' = Some 2"
  by (simp_all add: py_int_def py_strip_def py_isspace_def unsigned_int_def is_digit_def
      digit_val_def)

theorem use_message_data_actions_witness:
  "use_message_data [''2''] robot3 world_robot3 = (Inl (AssertionError 2), world_robot3) \<and>
   motor_velocity (snd (use_message_data [''0''] robot3 world_robot3)) ''wheel1'' = Finite 5 \<and>
   motor_velocity (snd (use_message_data [''1''] robot3 world_robot3)) ''wheel4'' = Finite (- 5)"
proof -
  have w1: "''wheel1'' \<in> set (wheels robot3)" and w4: "''wheel4'' \<in> set (wheels robot3)"
    by (simp_all add: robot3_def)
  note a2 = use_message_data_actions [of "[''2'']" robot3 world_robot3]
  note a0 = use_message_data_actions [of "[''0'']" robot3 world_robot3]
  note a1 = use_message_data_actions [of "[''1'']" robot3 world_robot3]
  have "use_message_data [''2''] robot3 world_robot3 = (Inl (AssertionError 2), world_robot3)"
    using a2 py_int_digits(3) by simp
  moreover have "motor_velocity (snd (use_message_data [''0''] robot3 world_robot3)) ''wheel1''
      = Finite 5"
    using a0 py_int_digits(1) w1 by fastforce
  moreover have "motor_velocity (snd (use_message_data [''1''] robot3 world_robot3)) ''wheel4''
      = Finite (- 5)"
    using a1 py_int_digits(2) w4 by fastforce
  ultimately show ?thesis by simp
qed

text \<open>
  C10: the continuous robot's \<open>use_message_data\<close> accepts every command whose first
  field \<open>float\<close> reads, with no check of the value, and sets the velocity of every wheel
  to the product of that value and 5.0, so all wheels get the same velocity; the
  constructor gives the robot its four wheels.
\<close>

theorem use_message_data_continuous_scaling:
  "(\<forall>f rest x. message = f # rest \<and> float_of f = Some x \<longrightarrow>
      (\<exists>w'. use_message_data_continuous float_of fmul message r w = (Inr (), w') \<and>
         (\<forall>d \<in> set (c_wheels r).
            motor_velocity w' d = fmul x (Finite 5) \<and> motor_position w' d = PosInf) \<and>
         (\<forall>d. d \<notin> set (c_wheels r) \<longrightarrow>
            motor_velocity w' d = motor_velocity w d \<and> motor_position w' d = motor_position w d))) \<and>
   c_wheels (fst (continuous_robot_init w0)) = [''wheel1'', ''wheel2'', ''wheel3'', ''wheel4'']"
  by (simp add: use_message_data_continuous_def set_all_wheels_velocity set_all_wheels_position
      continuous_robot_init_def setup_motors_def initialize_comms_def Let_def)

theorem use_message_data_continuous_scaling_witness:
  "motor_velocity
     (snd (use_message_data_continuous float_table exact_mul [''0.5'']
        (fst (continuous_robot_init world_robot3)) world_robot3)) ''wheel2'' = Finite 2.5"
proof -
  have w: "''wheel2'' \<in> set (c_wheels (fst (continuous_robot_init world_robot3)))"
    using use_message_data_continuous_scaling [of "[]" float_table exact_mul
         "fst (continuous_robot_init world_robot3)" world_robot3 world_robot3] by simp
  have f: "float_table ''0.5'' = Some (Finite 0.5)"
    by (simp add: float_table_def)
  have m: "exact_mul (Finite 0.5) (Finite 5) = Finite 2.5"
    by (simp add: exact_mul_def)
  show ?thesis
    using use_message_data_continuous_scaling [of "[''0.5'']" float_table exact_mul
        "fst (continuous_robot_init world_robot3)" world_robot3 world_robot3] w f m
    by fastforce
qed

subsection \<open>Draining the queue\<close>

lemma use_message_data_ok:
  assumes "use_message_data m r w = (Inr u, w')"
  shows "\<exists>v. \<forall>x. use_message_data m r x = (Inr (), set_all_wheels (wheels r) v x)"
  using assms
  by (auto simp add: use_message_data_def split: list.splits option.splits if_splits)

lemma use_message_data_raises:
  "use_message_data m r w = (Inl e, w') \<Longrightarrow> w' = w"
  by (auto simp add: use_message_data_def Let_def split: list.splits option.splits if_splits)

lemma handle_receiver_empty:
  "queue w (receiver r) = [] \<Longrightarrow>
   handle_receiver r w = (Inr (), w\<lparr>calls := calls w @ [GetQueueLength (receiver r) 0]\<rparr>)"
  by (subst handle_receiver.simps) (simp add: getQueueLength_def)

lemma handle_receiver_packet:
  "queue w (receiver r) = p # ps \<Longrightarrow>
   handle_receiver r w =
     (let w1 = w\<lparr>calls := calls w @ [GetQueueLength (receiver r) (Suc (length ps)),
                                       GetData (receiver r)]\<rparr>
      in case decode_utf8 p of
           Inl e \<Rightarrow> (Inl e, w1)
         | Inr frame \<Rightarrow>
             (case use_message_data (decode_frame frame) r w1 of
                (Inl e, w2) \<Rightarrow> (Inl e, w2)
              | (Inr u, w2) \<Rightarrow> handle_receiver r (nextPacket (receiver r) w2)))"
  by (subst handle_receiver.simps)
    (auto simp add: getQueueLength_def getData_def Let_def split: sum.splits prod.splits)

lemma handle_receiver_last:
  "queue w (receiver r) = q \<Longrightarrow> handle_receiver r w = (Inr u, w') \<Longrightarrow>
   queue w' (receiver r) = [] \<and>
   (q = [] \<longrightarrow> motor_velocity w' = motor_velocity w \<and> motor_position w' = motor_position w) \<and>
   (q \<noteq> [] \<longrightarrow>
      (\<exists>frame v. last q = Text frame \<and>
         (\<forall>x. use_message_data (decode_frame frame) r x =
                (Inr (), set_all_wheels (wheels r) v x)) \<and>
         motor_velocity w' = (\<lambda>d. if d \<in> set (wheels r) then v else motor_velocity w d) \<and>
         motor_position w' = (\<lambda>d. if d \<in> set (wheels r) then PosInf else motor_position w d)))"
proof (induction q arbitrary: w)
  case Nil
  then show ?case by (auto simp add: handle_receiver_empty)
next
  case (Cons p ps)
  let ?w1 = "w\<lparr>calls := calls w @ [GetQueueLength (receiver r) (Suc (length ps)),
                                      GetData (receiver r)]\<rparr>"
  from Cons.prems obtain frame where p: "p = Text frame"
    by (cases p) (simp_all add: handle_receiver_packet decode_utf8_def)
  from Cons.prems p obtain w2 where
    use: "use_message_data (decode_frame frame) r ?w1 = (Inr (), w2)" and
    rest: "handle_receiver r (nextPacket (receiver r) w2) = (Inr u, w')"
    by (cases "use_message_data (decode_frame frame) r ?w1")
      (auto simp add: handle_receiver_packet decode_utf8_def split: sum.splits)
  from use_message_data_ok [OF use] obtain v where
    v: "\<And>x. use_message_data (decode_frame frame) r x = (Inr (), set_all_wheels (wheels r) v x)"
    by blast
  have w2: "w2 = set_all_wheels (wheels r) v ?w1"
    using use v by simp
  have q2: "queue (nextPacket (receiver r) w2) (receiver r) = ps"
    using Cons.prems(1) by (simp add: w2 nextPacket_def set_all_wheels_frame)
  have mv: "motor_velocity (nextPacket (receiver r) w2) =
              (\<lambda>d. if d \<in> set (wheels r) then v else motor_velocity w d)"
    and mp: "motor_position (nextPacket (receiver r) w2) =
              (\<lambda>d. if d \<in> set (wheels r) then PosInf else motor_position w d)"
    by (auto simp add: w2 nextPacket_def set_all_wheels_velocity set_all_wheels_position
        fun_eq_iff)
  note ih = Cons.IH [OF q2 rest]
  show ?case
  proof (cases "ps = []")
    case True
    then show ?thesis
      using ih p v mv mp by auto
  next
    case False
    then obtain frame' v' where
      l: "last ps = Text frame'" and
      v': "\<And>x. use_message_data (decode_frame frame') r x =
                 (Inr (), set_all_wheels (wheels r) v' x)" and
      mv': "motor_velocity w' =
              (\<lambda>d. if d \<in> set (wheels r) then v' else motor_velocity (nextPacket (receiver r) w2) d)" and
      mp': "motor_position w' =
              (\<lambda>d. if d \<in> set (wheels r) then PosInf
                    else motor_position (nextPacket (receiver r) w2) d)"
      using ih by blast
    have "motor_velocity w' = (\<lambda>d. if d \<in> set (wheels r) then v' else motor_velocity w d)"
      unfolding mv' mv by auto
    moreover have "motor_position w' =
        (\<lambda>d. if d \<in> set (wheels r) then PosInf else motor_position w d)"
      unfolding mp' mp by auto
    ultimately show ?thesis
      using ih False l v' by auto
  qed
qed

lemma decode_digits:
  "decode_frame ''0'' = [''0'']" "decode_frame ''1'' = [''1'']"
  by (simp_all add: decode_frame_def)

lemma use_message_data_valid:
  assumes "py_int (hd m) = Some 0 \<or> py_int (hd m) = Some 1" and "m \<noteq> []"
  shows "use_message_data m r x =
           (Inr (), set_all_wheels (wheels r)
                      (if py_int (hd m) = Some 0 then Finite 5 else Finite (- 5)) x)"
  using assms by (cases m) (auto simp add: use_message_data_def)

lemma handle_receiver_returns:
  assumes "queue w (receiver r) = q"
    and "\<forall>p \<in> set q. \<exists>frame. p = Text frame \<and>
           (py_int (hd (decode_frame frame)) = Some 0 \<or>
            py_int (hd (decode_frame frame)) = Some 1)"
  shows "\<exists>w'. handle_receiver r w = (Inr (), w')"
  using assms
proof (induction q arbitrary: w)
  case Nil
  then show ?case by (simp add: handle_receiver_empty)
next
  case (Cons p ps)
  from Cons.prems(2) obtain frame where p: "p = Text frame"
    and a: "py_int (hd (decode_frame frame)) = Some 0 \<or>
            py_int (hd (decode_frame frame)) = Some 1"
    by auto
  have ne: "decode_frame frame \<noteq> []"
    by (simp add: decode_frame_def split_sep_not_Nil)
  let ?w1 = "w\<lparr>calls := calls w @ [GetQueueLength (receiver r) (Suc (length ps)),
                                      GetData (receiver r)]\<rparr>"
  let ?w2 = "set_all_wheels (wheels r)
               (if py_int (hd (decode_frame frame)) = Some 0 then Finite 5 else Finite (- 5)) ?w1"
  have step: "handle_receiver r w = handle_receiver r (nextPacket (receiver r) ?w2)"
    using Cons.prems(1) p use_message_data_valid [OF a ne, of r ?w1]
    by (simp add: handle_receiver_packet decode_utf8_def)
  have "queue (nextPacket (receiver r) ?w2) (receiver r) = ps"
    using Cons.prems(1) by (simp add: nextPacket_def set_all_wheels_frame)
  from Cons.IH [OF this] Cons.prems(2) show ?case
    by (simp add: step)
qed

text \<open>
  C1: when \<open>handle_receiver\<close> returns, the queue of the receiver is empty, and if it
  held the frames \<open>fs @ [f]\<close> at the start, the motors are as \<open>use_message_data\<close> leaves
  them on the last frame \<open>f\<close> alone, applied to the world from before the drain: the
  frames \<open>fs\<close> that were queued before it have no effect on them. On an empty queue the
  motors keep their state.
\<close>

theorem handle_receiver_last_wins:
  assumes "handle_receiver r w = (Inr (), w')"
  shows "queue w' (receiver r) = [] \<and>
         (\<forall>fs f. queue w (receiver r) = fs @ [f] \<longrightarrow>
            (\<exists>frame wl. f = Text frame \<and>
               use_message_data (decode_frame frame) r w = (Inr (), wl) \<and>
               motor_velocity w' = motor_velocity wl \<and>
               motor_position w' = motor_position wl)) \<and>
         (queue w (receiver r) = [] \<longrightarrow>
            motor_velocity w' = motor_velocity w \<and> motor_position w' = motor_position w)"
proof -
  note l = handle_receiver_last [OF refl assms]
  have "\<exists>frame wl. f = Text frame \<and>
               use_message_data (decode_frame frame) r w = (Inr (), wl) \<and>
               motor_velocity w' = motor_velocity wl \<and>
               motor_position w' = motor_position wl"
    if q: "queue w (receiver r) = fs @ [f]" for fs f
  proof -
    from l q obtain frame v where
      f: "f = Text frame" and
      v: "\<And>x. use_message_data (decode_frame frame) r x = (Inr (), set_all_wheels (wheels r) v x)" and
      mv: "motor_velocity w' = (\<lambda>d. if d \<in> set (wheels r) then v else motor_velocity w d)" and
      mp: "motor_position w' = (\<lambda>d. if d \<in> set (wheels r) then PosInf else motor_position w d)"
      by auto
    show ?thesis
      using f v [of w] mv mp
      by (simp add: set_all_wheels_velocity set_all_wheels_position)
  qed
  then show ?thesis
    using l by blast
qed

theorem handle_receiver_last_wins_witness:
  "fst (handle_receiver robot3 world_backlog) = Inr () \<and>
   queue (snd (handle_receiver robot3 world_backlog)) ''receiver'' = [] \<and>
   motor_velocity (snd (handle_receiver robot3 world_backlog)) ''wheel1'' = Finite 5 \<and>
   motor_velocity (snd (handle_receiver robot3 world_backlog)) ''wheel4'' = Finite 5"
proof -
  have rc: "receiver robot3 = ''receiver''"
    and wh: "wheels robot3 = [''wheel1'', ''wheel2'', ''wheel3'', ''wheel4'']"
    by (simp_all add: robot3_def)
  have q: "queue world_backlog (receiver robot3) = [Text ''1'', Text ''1''] @ [Text ''0'']"
    by (simp add: world_backlog_def rc)
  have "\<exists>w'. handle_receiver robot3 world_backlog = (Inr (), w')"
    by (rule handle_receiver_returns [OF q]) (simp add: decode_digits py_int_digits)
  then have ret: "handle_receiver robot3 world_backlog =
      (Inr (), snd (handle_receiver robot3 world_backlog))"
    by auto
  have last: "use_message_data (decode_frame ''0'') robot3 world_backlog =
     (Inr (), set_all_wheels (wheels robot3) (Finite 5) world_backlog)"
    by (simp add: use_message_data_def decode_digits py_int_digits)
  from handle_receiver_last_wins [OF ret] q
  obtain frame wl where "Text ''0'' = Text frame"
    and "use_message_data (decode_frame frame) robot3 world_backlog = (Inr (), wl)"
    and "motor_velocity (snd (handle_receiver robot3 world_backlog)) = motor_velocity wl"
    and e: "queue (snd (handle_receiver robot3 world_backlog)) (receiver robot3) = []"
    by blast
  then have mv: "motor_velocity (snd (handle_receiver robot3 world_backlog)) =
      motor_velocity (set_all_wheels (wheels robot3) (Finite 5) world_backlog)"
    using last by simp
  have "fst (handle_receiver robot3 world_backlog) = Inr ()"
    using ret by (metis fst_conv)
  then show ?thesis
    using e by (simp add: mv wh rc setVelocity_def setPosition_def)
qed

subsection \<open>The order of the device calls\<close>

lemma tick_order_append:
  "tick_order p (xs @ ys) = (case tick_order p xs of None \<Rightarrow> None | Some q \<Rightarrow> tick_order q ys)"
  by (induction xs arbitrary: p) (simp_all split: option.splits)

lemma tick_order_wheels:
  "tick_order Draining (concat (map (\<lambda>d. [SetPosition d PosInf, SetVelocity d v]) ds)) =
     Some Draining"
  by (induction ds) simp_all

lemma wheels_no_send:
  "filter is_Send (concat (map (\<lambda>d. [SetPosition d PosInf, SetVelocity d v]) ds)) = []"
  "filter is_SetChannel (concat (map (\<lambda>d. [SetPosition d PosInf, SetVelocity d v]) ds)) = []"
  by (induction ds) simp_all

lemma handle_receiver_effects:
  "queue w (receiver r) = q \<Longrightarrow> handle_receiver r w = (res, w') \<Longrightarrow>
   channel w' = channel w \<and>
   (\<exists>evs. calls w' = calls w @ evs \<and>
      tick_order Draining evs = Some (case res of Inl e \<Rightarrow> Draining | Inr u \<Rightarrow> Drained) \<and>
      filter is_Send evs = [] \<and> filter is_SetChannel evs = [])"
proof (induction q arbitrary: w)
  case Nil
  then show ?case by (auto simp add: handle_receiver_empty)
next
  case (Cons p ps)
  let ?poll = "[GetQueueLength (receiver r) (Suc (length ps)), GetData (receiver r)]"
  let ?w1 = "w\<lparr>calls := calls w @ ?poll\<rparr>"
  note unfold = handle_receiver_packet [OF Cons.prems(1)]
  show ?case
  proof (cases "decode_utf8 p")
    case (Inl e)
    then have "res = Inl e" "w' = ?w1"
      using Cons.prems(2) by (simp_all add: unfold)
    then show ?thesis by simp
  next
    case (Inr frame)
    obtain res2 w2 where use: "use_message_data (decode_frame frame) r ?w1 = (res2, w2)"
      by (cases "use_message_data (decode_frame frame) r ?w1")
    show ?thesis
    proof (cases res2)
      case (Inl e)
      then have "res = Inl e" "w' = ?w1"
        using Cons.prems(2) Inr use use_message_data_raises [of "decode_frame frame" r ?w1 e w2]
        by (simp_all add: unfold)
      then show ?thesis by simp
    next
      case inr: (Inr u)
      from use_message_data_ok [of "decode_frame frame" r ?w1 u w2] use inr obtain v where
        w2: "w2 = set_all_wheels (wheels r) v ?w1"
        by auto
      let ?w3 = "nextPacket (receiver r) w2"
      have rest: "handle_receiver r ?w3 = (res, w')"
        using Cons.prems(2) Inr use inr by (simp add: unfold)
      have q3: "queue ?w3 (receiver r) = ps"
        using Cons.prems(1) by (simp add: w2 nextPacket_def set_all_wheels_frame)
      have c3: "calls ?w3 = calls w @ ?poll @
                  concat (map (\<lambda>d. [SetPosition d PosInf, SetVelocity d v]) (wheels r)) @
                  [NextPacket (receiver r)]"
        by (simp add: w2 nextPacket_def set_all_wheels_calls)
      have ch3: "channel ?w3 = channel w"
        by (simp add: w2 nextPacket_def set_all_wheels_frame)
      from Cons.IH [OF q3 rest] obtain evs where
        ch: "channel w' = channel ?w3" and
        c: "calls w' = calls ?w3 @ evs" and
        t: "tick_order Draining evs = Some (case res of Inl e \<Rightarrow> Draining | Inr u \<Rightarrow> Drained)" and
        n: "filter is_Send evs = []" "filter is_SetChannel evs = []"
        by blast
      let ?evs = "?poll @ concat (map (\<lambda>d. [SetPosition d PosInf, SetVelocity d v]) (wheels r)) @
                  [NextPacket (receiver r)] @ evs"
      have "calls w' = calls w @ ?evs"
        by (simp add: c c3)
      moreover have "tick_order Draining ?evs =
          Some (case res of Inl e \<Rightarrow> Draining | Inr u \<Rightarrow> Drained)"
        by (simp add: tick_order_append tick_order_wheels t)
      moreover have "filter is_Send ?evs = []" "filter is_SetChannel ?evs = []"
        by (simp_all add: wheels_no_send n)
      ultimately show ?thesis
        using ch ch3 by (intro conjI exI [of _ ?evs]) simp_all
    qed
  qed
qed

lemma handle_emitter_effects:
  "handle_emitter str_of r w =
     (Inr (), w\<lparr>calls := calls w @
        [GetValue (positionSensor r),
         Send (emitter r) (str_of (sensor_value w (positionSensor r)))]\<rparr>)"
  by (simp add: handle_emitter_def create_message_def getValue_def send_def encode_fields_def)

lemma run_effects:
  "run str_of ticks r w = (st, w') \<Longrightarrow>
   channel w' = channel w \<and>
   (\<exists>evs p. calls w' = calls w @ evs \<and> tick_order Awaiting evs = Some p \<and>
      filter is_SetChannel evs = [] \<and>
      (st = Running \<longrightarrow> p = Awaiting \<and> length (filter is_Send evs) = length ticks))"
proof (induction ticks arbitrary: w)
  case Nil
  then show ?case by auto
next
  case (Cons t ticks)
  let ?w1 = "w\<lparr>queue := (queue w)(''receiver'' := queue w ''receiver'' @ arrivals t),
               sensor_value := (sensor_value w)(''polePosSensor'' := reading t),
               calls := calls w @ [Step (timestep r)]\<rparr>"
  show ?case
  proof (cases "step_result t = 1")
    case True
    then have "st = Exited" "w' = ?w1"
      using Cons.prems by (simp_all add: robot_step_def)
    then show ?thesis by simp
  next
    case False
    obtain res w2 where hr: "handle_receiver r ?w1 = (res, w2)"
      by (cases "handle_receiver r ?w1")
    from handle_receiver_effects [OF refl hr] obtain evs where
      ch2: "channel w2 = channel w" and
      c2: "calls w2 = calls w @ Step (timestep r) # evs" and
      t2: "tick_order Draining evs = Some (case res of Inl e \<Rightarrow> Draining | Inr u \<Rightarrow> Drained)" and
      n2: "filter is_Send evs = []" "filter is_SetChannel evs = []"
      by auto
    show ?thesis
    proof (cases res)
      case (Inl e)
      then have "st = Raised e" "w' = w2"
        using Cons.prems False hr by (simp_all add: robot_step_def)
      then show ?thesis
        using ch2 c2 t2 n2 Inl by simp
    next
      case (Inr u)
      let ?sense = "[GetValue (positionSensor r),
                     Send (emitter r) (str_of (sensor_value w2 (positionSensor r)))]"
      let ?w3 = "w2\<lparr>calls := calls w2 @ ?sense\<rparr>"
      have rest: "run str_of ticks r ?w3 = (st, w')"
        using Cons.prems False hr Inr by (simp add: robot_step_def handle_emitter_effects)
      from Cons.IH [OF rest] obtain evs' p where
        ch: "channel w' = channel ?w3" and
        c: "calls w' = calls ?w3 @ evs'" and
        t: "tick_order Awaiting evs' = Some p" and
        n: "filter is_SetChannel evs' = []" and
        k: "st = Running \<longrightarrow> p = Awaiting \<and> length (filter is_Send evs') = length ticks"
        by blast
      let ?evs = "Step (timestep r) # evs @ ?sense @ evs'"
      have "calls w' = calls w @ ?evs"
        by (simp add: c c2)
      moreover have "tick_order Awaiting ?evs = Some p"
        using t2 Inr by (simp add: tick_order_append t)
      moreover have "filter is_SetChannel ?evs = []"
        by (simp add: n n2)
      moreover have "st = Running \<longrightarrow>
          p = Awaiting \<and> length (filter is_Send ?evs) = length (t # ticks)"
        using k by (simp add: n2)
      ultimately show ?thesis
        using ch ch2 by (intro conjI exI [of _ ?evs] exI [of _ p]) simp_all
    qed
  qed
qed

lemma run_running:
  assumes "receiver r = ''receiver''"
    and "\<forall>t \<in> set ticks. step_result t \<noteq> 1 \<and>
           (\<forall>p \<in> set (arrivals t). \<exists>frame. p = Text frame \<and>
              (py_int (hd (decode_frame frame)) = Some 0 \<or>
               py_int (hd (decode_frame frame)) = Some 1))"
    and "\<forall>p \<in> set (queue w ''receiver''). \<exists>frame. p = Text frame \<and>
              (py_int (hd (decode_frame frame)) = Some 0 \<or>
               py_int (hd (decode_frame frame)) = Some 1)"
  shows "fst (run str_of ticks r w) = Running"
  using assms(2,3)
proof (induction ticks arbitrary: w)
  case Nil
  then show ?case by simp
next
  case (Cons t ticks)
  let ?w1 = "w\<lparr>queue := (queue w)(''receiver'' := queue w ''receiver'' @ arrivals t),
               sensor_value := (sensor_value w)(''polePosSensor'' := reading t),
               calls := calls w @ [Step (timestep r)]\<rparr>"
  have q1: "queue ?w1 (receiver r) = queue w ''receiver'' @ arrivals t"
    by (simp add: assms(1))
  have "\<forall>p \<in> set (queue w ''receiver'' @ arrivals t). \<exists>frame. p = Text frame \<and>
              (py_int (hd (decode_frame frame)) = Some 0 \<or>
               py_int (hd (decode_frame frame)) = Some 1)"
    using Cons.prems by auto
  from handle_receiver_returns [OF q1 this] obtain w2 where
    hr: "handle_receiver r ?w1 = (Inr (), w2)"
    by blast
  have q2: "queue w2 ''receiver'' = []"
    using handle_receiver_last [OF q1 hr] assms(1) by simp
  let ?w3 = "w2\<lparr>calls := calls w2 @
                [GetValue (positionSensor r),
                 Send (emitter r) (str_of (sensor_value w2 (positionSensor r)))]\<rparr>"
  have step: "run str_of (t # ticks) r w = run str_of ticks r ?w3"
    using Cons.prems(1) hr by (simp add: robot_step_def handle_emitter_effects)
  have "fst (run str_of ticks r ?w3) = Running"
    using Cons.prems(1) q2 by (intro Cons.IH) simp_all
  then show ?case
    by (simp only: step)
qed

text \<open>
  C9: the device calls that \<open>run\<close> makes, over any number of time steps, follow the
  order of the automaton \<open>tick_order\<close>: in every iteration, after the step, the queue is
  polled and drained, with each decoded command applied to the wheels, until the poll
  returns 0; only then is the sensor read, and then the one frame of the tick is sent.
  While the loop keeps running, every iteration has sent exactly one frame.
\<close>

theorem run_drains_before_sending:
  assumes "run str_of ticks r w = (st, w')"
  shows "\<exists>evs p. calls w' = calls w @ evs \<and> tick_order Awaiting evs = Some p \<and>
           (st = Running \<longrightarrow> p = Awaiting \<and> length (filter is_Send evs) = length ticks)"
  using run_effects [OF assms] by blast

theorem run_drains_before_sending_witness:
  "fst (run (\<lambda>v. ''0.01'') two_ticks robot3 world_robot3) = Running \<and>
   tick_order Awaiting (calls (snd (run (\<lambda>v. ''0.01'') two_ticks robot3 world_robot3))) =
     Some Awaiting \<and>
   length (filter is_Send (calls (snd (run (\<lambda>v. ''0.01'') two_ticks robot3 world_robot3)))) = 2"
proof -
  let ?res = "run (\<lambda>v. ''0.01'') two_ticks robot3 world_robot3"
  have rc: "receiver robot3 = ''receiver''"
    by (simp add: robot3_def)
  have running: "fst ?res = Running"
    by (rule run_running [OF rc])
      (simp_all add: two_ticks_def world_robot3_def decode_frame_def py_int_digits)
  then have eq: "?res = (Running, snd ?res)"
    by (metis prod.collapse)
  from run_drains_before_sending [OF eq] obtain evs p where
    "calls (snd ?res) = calls world_robot3 @ evs" and
    "tick_order Awaiting evs = Some p" and
    "p = Awaiting \<and> length (filter is_Send evs) = length two_ticks"
    by blast
  then show ?thesis
    using running by (simp add: world_robot3_def two_ticks_def)
qed

subsection \<open>Channels\<close>

lemma py_int_single_char:
  "py_int [c] = Some n \<Longrightarrow> is_digit c \<and> n = int (digit_val c)"
  by (auto simp add: py_int_def py_strip_def unsigned_int_def split: if_splits)

text \<open>
  C8: when the constructor succeeds, the robot's name ends in a decimal digit, the
  robot number is the value of that digit, and the emitter and the receiver (which the
  attribute spelt \<open>reciever\<close> also names) are both on the channel of that number. The
  constructor sets each of the two channels once, and no later iteration of \<open>run\<close>
  sets a channel or changes one.
\<close>

theorem channel_assignment:
  assumes "robot_init w = (Inr r, w')"
  shows "robot_name w \<noteq> [] \<and> is_digit (last (robot_name w)) \<and>
         robot_num r = int (digit_val (last (robot_name w))) \<and>
         emitter r = ''emitter'' \<and> receiver r = ''receiver'' \<and> reciever r = receiver r \<and>
         channel w' (emitter r) = robot_num r \<and> channel w' (receiver r) = robot_num r \<and>
         filter is_SetChannel (calls w') =
           filter is_SetChannel (calls w) @
             [SetChannel (emitter r) (robot_num r), SetChannel (receiver r) (robot_num r)] \<and>
         (\<forall>str_of ticks st w''. run str_of ticks r w' = (st, w'') \<longrightarrow>
            channel w'' = channel w' \<and>
            filter is_SetChannel (calls w'') = filter is_SetChannel (calls w'))"
proof -
  from assms obtain c cs where name: "robot_name w = c # cs"
    by (cases "robot_name w")
      (simp_all add: robot_init_def initialize_comms_def enable_def Let_def)
  from assms name obtain n where n: "py_int [last (robot_name w)] = Some n"
    by (cases "py_int [last (robot_name w)]")
      (simp_all add: robot_init_def initialize_comms_def enable_def Let_def)
  note d = py_int_single_char [OF n]
  have r: "r = \<lparr> robot_num = n, timestep = basic_time_step w, emitter = ''emitter'',
                 reciever = ''receiver'', receiver = ''receiver'',
                 positionSensor = ''polePosSensor'',
                 wheels = [''wheel1'', ''wheel2'', ''wheel3'', ''wheel4''] \<rparr>"
    using assms name n
    by (simp add: robot_init_def initialize_comms_def enable_def setup_motors_def Let_def)
  have ch: "channel w' = (channel w)(''emitter'' := n, ''receiver'' := n)"
    using assms name n
    by (auto simp add: robot_init_def initialize_comms_def enable_def setup_motors_def Let_def
        setChannel_def setVelocity_def setPosition_def)
  have cs: "filter is_SetChannel (calls w') =
      filter is_SetChannel (calls w) @ [SetChannel ''emitter'' n, SetChannel ''receiver'' n]"
    using assms name n
    by (auto simp add: robot_init_def initialize_comms_def enable_def setup_motors_def Let_def
        setChannel_def setVelocity_def setPosition_def)
  have later: "channel w'' = channel w' \<and>
      filter is_SetChannel (calls w'') = filter is_SetChannel (calls w')"
    if "run str_of ticks r w' = (st, w'')" for str_of ticks st w''
    using run_effects [OF that] by auto
  show ?thesis
    using name d later by (simp add: r ch cs)
qed

theorem channel_assignment_witness:
  "fst (robot_init world_robot3) = Inr robot3 \<and>
   channel (snd (robot_init world_robot3)) ''emitter'' = 3 \<and>
   channel (snd (robot_init world_robot3)) ''receiver'' = 3 \<and>
   channel (snd (run (\<lambda>v. ''0.01'') two_ticks robot3 (snd (robot_init world_robot3)))) ''receiver'' = 3"
proof -
  have p3: "py_int ''3'' = Some 3"
    by (simp add: py_int_def py_strip_def py_isspace_def unsigned_int_def is_digit_def
        digit_val_def)
  have init: "fst (robot_init world_robot3) = Inr robot3"
    by (simp add: robot_init_def world_robot3_def robot3_def initialize_comms_def enable_def
        setup_motors_def Let_def p3)
  then have eq: "robot_init world_robot3 = (Inr robot3, snd (robot_init world_robot3))"
    by (metis prod.collapse)
  note a = channel_assignment [OF eq]
  have e: "emitter robot3 = ''emitter''" and rc: "receiver robot3 = ''receiver''"
    and k: "robot_num robot3 = 3"
    by (simp_all add: robot3_def)
  have "channel (snd (run (\<lambda>v. ''0.01'') two_ticks robot3 (snd (robot_init world_robot3)))) =
      channel (snd (robot_init world_robot3))"
    using a by (metis prod.collapse)
  then show ?thesis
    using a init e rc k by simp
qed

end
